theory Spec2Isabelle
  imports Complex_Main
begin

section \<open>Outcomes of a worker process\<close>

text \<open>
  The program is \<^verbatim>\<open>remote-sensing/supervised.py\<close>: one process per worker, each running
  \<^verbatim>\<open>main\<close>. A piece of it either returns a value, raises a Python exception that nothing in
  the file catches, or blocks for ever in a collective call that a peer never joins.
  Python floats are modelled as \<^typ>\<open>real\<close> and Python ints as \<^typ>\<open>int\<close> or \<^typ>\<open>nat\<close>.
\<close>

datatype error =
    ZeroDivisionError
  | IndexError
  | KeyError string
  | TypeError
  | UnpicklingError
  | RuntimeError

datatype 'a outcome = Hangs | Raises error | Returns 'a

fun obind :: "'a outcome \<Rightarrow> ('a \<Rightarrow> 'b outcome) \<Rightarrow> 'b outcome" where
  "obind Hangs f = Hangs"
| "obind (Raises e) f = Raises e"
| "obind (Returns x) f = f x"


section \<open>evaluate: the metric counts (lines 58 to 78)\<close>

text \<open>
  \<^verbatim>\<open>intersectionAndUnion\<close> lives in \<^verbatim>\<open>util.utils\<close>, which is not part of the sources at hand,
  and the prediction comes from the network. What one pass of the loop body computes from
  them is therefore taken as given, per batch: the three count arrays (one entry per class),
  the number of pixels where prediction and mask agree, and \<^verbatim>\<open>pred.numel()\<close>.
\<close>

record batch_counts =
  bc_intersection :: "nat list"
  bc_union :: "nat list"
  bc_target :: "nat list"
  bc_correct :: nat
  bc_numel :: nat

text \<open>A shard is what one worker's validation loader yields; a pass has one shard per rank.\<close>

type_synonym shard = "batch_counts list"

text \<open>Addition of two count arrays of one shape, entry by entry.\<close>

definition vadd :: "nat list \<Rightarrow> nat list \<Rightarrow> nat list" where
  "vadd a b = map2 (+) a b"

text \<open>The sum of the arrays that the workers contribute to one collective call.\<close>

fun vsum :: "nat list list \<Rightarrow> nat list" where
  "vsum [] = []"
| "vsum [v] = v"
| "vsum (v # vs) = vadd v (vsum vs)"

text \<open>
  \<^verbatim>\<open>dist.all_reduce\<close> in pass \<open>k\<close> of the loop: every worker contributes the array of its own
  \<open>k\<close>-th batch and receives the sum. The call completes only when every worker makes it, so
  a peer whose loader is already exhausted leaves the caller blocked.
\<close>

definition all_reduce :: "shard list \<Rightarrow> nat \<Rightarrow> (batch_counts \<Rightarrow> nat list) \<Rightarrow> nat list outcome" where
  "all_reduce shards k field =
     (if list_all (\<lambda>s. k < length s) shards
      then Returns (vsum (map (\<lambda>s. field (s ! k)) shards))
      else Hangs)"

text \<open>
  Modelled from the spec: \<^verbatim>\<open>AverageMeter\<close> (\<^verbatim>\<open>util.utils\<close>, not among the sources) keeps a
  running sum that starts at zero, and \<^verbatim>\<open>update\<close> adds its argument to it. The scalar zero
  it starts from broadcasts against the first array added; the model writes it as the zero
  array with one entry per class.
\<close>

record meters =
  intersection_meter :: "nat list"
  union_meter :: "nat list"
  correct_pixel :: nat
  total_pixel :: nat

definition fresh_meters :: "nat \<Rightarrow> meters" where
  "fresh_meters nclass =
     \<lparr>intersection_meter = replicate nclass 0, union_meter = replicate nclass 0,
      correct_pixel = 0, total_pixel = 0\<rparr>"

text \<open>
  The loop over the worker's own loader (lines 40 to 73). \<open>k\<close> counts the batches already
  seen. The intersection and union meters take the reduced arrays; the reduced target is
  computed and dropped; the two pixel meters take the worker's own numbers.
\<close>

fun evaluate_loop :: "shard list \<Rightarrow> nat \<Rightarrow> batch_counts list \<Rightarrow> meters \<Rightarrow> meters outcome" where
  "evaluate_loop shards k [] m = Returns m"
| "evaluate_loop shards k (b # bs) m =
     obind (all_reduce shards k bc_intersection) (\<lambda>reduced_intersection.
     obind (all_reduce shards k bc_union) (\<lambda>reduced_union.
     obind (all_reduce shards k bc_target) (\<lambda>reduced_target.
       evaluate_loop shards (Suc k) bs
         \<lparr>intersection_meter = vadd (intersection_meter m) reduced_intersection,
          union_meter = vadd (union_meter m) reduced_union,
          correct_pixel = correct_pixel m + bc_correct b,
          total_pixel = total_pixel m + bc_numel b\<rparr>)))"

text \<open>Line 75: the per-class ratio with the guard \<open>1e-10\<close>, times one hundred.\<close>

definition iou_of :: "nat list \<Rightarrow> nat list \<Rightarrow> real list" where
  "iou_of isum usum = map2 (\<lambda>i u. real i / (real u + 1 / 10 ^ 10) * 100) isum usum"

text \<open>
  \<^verbatim>\<open>evaluate\<close> as worker \<open>rank\<close> runs it. Line 76 divides two Python floats, which raises when
  the total is zero (in particular when the loader is empty).
\<close>

definition evaluate :: "nat \<Rightarrow> shard list \<Rightarrow> nat \<Rightarrow> (real list \<times> real) outcome" where
  "evaluate nclass shards rank =
     obind (evaluate_loop shards 0 (shards ! rank) (fresh_meters nclass)) (\<lambda>m.
       let iou_class = iou_of (intersection_meter m) (union_meter m) in
       if total_pixel m = 0 then Raises ZeroDivisionError
       else Returns (iou_class, real (correct_pixel m) / real (total_pixel m) * 100))"

text \<open>
  The reduction order of the specification, for comparison: every worker accumulates over
  its whole shard, and one collective sum per count array folds the shards together.
\<close>

definition local_sum :: "nat \<Rightarrow> (batch_counts \<Rightarrow> nat list) \<Rightarrow> shard \<Rightarrow> nat list" where
  "local_sum nclass field s = foldl vadd (replicate nclass 0) (map field s)"

definition reduce_once :: "nat \<Rightarrow> (batch_counts \<Rightarrow> nat list) \<Rightarrow> shard list \<Rightarrow> nat list" where
  "reduce_once nclass field shards = vsum (map (local_sum nclass field) shards)"

text \<open>The accuracy of the specification: both pixel counts summed over every shard.\<close>

definition global_accuracy :: "shard list \<Rightarrow> real" where
  "global_accuracy shards =
     real (sum_list (map bc_correct (concat shards)))
       / real (sum_list (map bc_numel (concat shards))) * 100"

text \<open>A pass is well formed when every array has one entry per class.\<close>

definition well_shaped :: "nat \<Rightarrow> shard list \<Rightarrow> bool" where
  "well_shaped nclass shards =
     list_all (list_all (\<lambda>b. length (bc_intersection b) = nclass
        \<and> length (bc_union b) = nclass \<and> length (bc_target b) = nclass)) shards"


section \<open>evaluate: the resize to a multiple (lines 45 to 54)\<close>

text \<open>\<^verbatim>\<open>int(x)\<close> on a float drops the fraction, towards zero.\<close>

definition py_int :: "real \<Rightarrow> int" where
  "py_int x = (if 0 \<le> x then \<lfloor>x\<rfloor> else \<lceil>x\<rceil>)"

text \<open>Line 47, for one spatial dimension. The true division raises on a zero multiplier.\<close>

definition new_size :: "int \<Rightarrow> int \<Rightarrow> int outcome" where
  "new_size multiplier ori =
     (if multiplier = 0 then Raises ZeroDivisionError
      else Returns (py_int (real_of_int ori / real_of_int multiplier + 1 / 2) * multiplier))"

text \<open>
  What the loop body asks of torch for one batch, in order: the calls of
  \<^verbatim>\<open>F.interpolate\<close> with their target size, mode and \<^verbatim>\<open>align_corners\<close>, and the call of
  the network with the spatial size of its two inputs. What torch computes in these calls
  is outside the file, but for one thing: \<^verbatim>\<open>F.interpolate\<close> raises on a target size that is
  not positive, and then nothing after it in the loop body runs.
\<close>

datatype torch_call =
    Interpolate "int \<times> int" string bool
  | Forward "int \<times> int"

definition interpolate :: "int \<times> int \<Rightarrow> torch_call outcome" where
  "interpolate target =
     (if fst target \<le> 0 \<or> snd target \<le> 0 then Raises RuntimeError
      else Returns (Interpolate target ''bilinear'' True))"

text \<open>
  Lines 45 to 54 for a batch of spatial size \<open>ori\<close>: the two images are interpolated, the
  network runs, the prediction is interpolated back.
\<close>

definition evaluate_resize :: "int option \<Rightarrow> int \<times> int \<Rightarrow> torch_call list outcome" where
  "evaluate_resize multiplier ori =
     (case multiplier of
        None \<Rightarrow> Returns [Forward ori]
      | Some m \<Rightarrow>
          obind (new_size m (fst ori)) (\<lambda>new_h.
          obind (new_size m (snd ori)) (\<lambda>new_w.
          obind (interpolate (new_h, new_w)) (\<lambda>imgA.
          obind (interpolate (new_h, new_w)) (\<lambda>imgB.
          obind (Returns (Forward (new_h, new_w))) (\<lambda>pred.
          obind (interpolate ori) (\<lambda>resized.
            Returns [imgA, imgB, pred, resized])))))))"

text \<open>
  The rounding as the specification words it, for comparison: the smallest multiple of the
  multiplier that is not below the dimension.
\<close>

definition round_up_multiple :: "int \<Rightarrow> int \<Rightarrow> int" where
  "round_up_multiple multiplier d = ((d + multiplier - 1) div multiplier) * multiplier"

text \<open>The multiple nearest to the dimension, a tie going to the larger one.\<close>

definition nearest_multiple :: "int \<Rightarrow> int \<Rightarrow> int" where
  "nearest_multiple multiplier d = ((2 * d + multiplier) div (2 * multiplier)) * multiplier"


section \<open>main: configuration and the learning rate (lines 91, 135, 141 to 142, 183 to 186)\<close>

text \<open>The entries of the configuration mapping that the modelled lines read.\<close>

record cfg =
  cfg_batch_size :: int
  cfg_epochs :: int
  cfg_lr :: real
  cfg_lr_multi :: real
  cfg_nclass :: nat

text \<open>
  Line 91 runs on every rank, right after the process group is set up; line 135 builds the
  training loader from the entry as it then stands.
\<close>

definition main_setup :: "nat \<Rightarrow> nat \<Rightarrow> cfg \<Rightarrow> cfg" where
  "main_setup rank world_size c = c\<lparr>cfg_batch_size := cfg_batch_size c * 2\<rparr>"

definition trainloader_batch_size :: "nat \<Rightarrow> nat \<Rightarrow> cfg \<Rightarrow> int" where
  "trainloader_batch_size rank world_size c = cfg_batch_size (main_setup rank world_size c)"

text \<open>
  Line 184. On the range the loop reaches, a base between zero and one, Python's \<^verbatim>\<open>**\<close>
  on floats is the real power.
\<close>

definition lr_at :: "real \<Rightarrow> int \<Rightarrow> int \<Rightarrow> real" where
  "lr_at base iters total_iters =
     base * (1 - real_of_int iters / real_of_int total_iters) powr (9 / 10)"

text \<open>
  Lines 183 to 186 in step \<open>i\<close> of epoch \<open>epoch\<close>, with \<open>len\<close> for \<^verbatim>\<open>len(trainloader)\<close>: the
  global counter, and the rates written to the two parameter groups (backbone, then head).
\<close>

definition train_step_lr :: "cfg \<Rightarrow> int \<Rightarrow> int \<Rightarrow> int \<Rightarrow> (int \<times> real \<times> real) outcome" where
  "train_step_lr c len epoch i =
     (let iters = epoch * len + i;
          total_iters = len * cfg_epochs c
      in if total_iters = 0 then Raises ZeroDivisionError
         else let lr = lr_at (cfg_lr c) iters total_iters
              in Returns (iters, lr, lr * cfg_lr_multi c))"

text \<open>The inner loop (line 167), as far as the schedule goes: one update per step.\<close>

fun train_steps :: "cfg \<Rightarrow> int \<Rightarrow> int \<Rightarrow> int list \<Rightarrow> (int \<times> real \<times> real) list outcome" where
  "train_steps c len epoch [] = Returns []"
| "train_steps c len epoch (i # rest) =
     obind (train_step_lr c len epoch i) (\<lambda>r.
     obind (train_steps c len epoch rest) (\<lambda>rs. Returns (r # rs)))"


section \<open>main: checkpoints and the epoch loop (lines 141 to 221)\<close>

text \<open>
  The network's weights and the optimizer's state are opaque: \<open>'w\<close> and \<open>'o\<close>. A checkpoint
  is a Python dictionary from strings to objects, and a file either unpickles to such a
  dictionary or makes \<^verbatim>\<open>torch.load\<close> raise.
\<close>

datatype ('w, 'o) pyval = StateDict 'w | OptState 'o | PyInt int | PyFloat real

type_synonym ('w, 'o) pydict = "string \<Rightarrow> ('w, 'o) pyval option"

datatype ('w, 'o) saved_file = Unreadable | Pickled "('w, 'o) pydict"

text \<open>
  The save directory: the files by name, and the names \<^verbatim>\<open>torch.save\<close> was called with,
  oldest first.
\<close>

record ('w, 'o) storage =
  files :: "string \<Rightarrow> ('w, 'o) saved_file option"
  written :: "string list"

definition torch_save :: "('w, 'o) pydict \<Rightarrow> string \<Rightarrow> ('w, 'o) storage \<Rightarrow> ('w, 'o) storage" where
  "torch_save obj name fs = \<lparr>files = (files fs)(name \<mapsto> Pickled obj), written = written fs @ [name]\<rparr>"

definition torch_load :: "('w, 'o) saved_file \<Rightarrow> ('w, 'o) pydict outcome" where
  "torch_load f = (case f of Unreadable \<Rightarrow> Raises UnpicklingError | Pickled d \<Rightarrow> Returns d)"

definition getitem :: "('w, 'o) pydict \<Rightarrow> string \<Rightarrow> ('w, 'o) pyval outcome" where
  "getitem d k = (case d k of None \<Rightarrow> Raises (KeyError k) | Some v \<Rightarrow> Returns v)"

text \<open>
  The variables of \<^verbatim>\<open>main\<close> that a checkpoint carries. Python binds the three scalars
  unchecked and fails at their first use (\<^verbatim>\<open>range\<close> at line 157 for the epoch, the format at
  line 159 or the comparison at line 206 for the two trackers); the typed model rejects an
  object of the wrong kind where it is read. \<^verbatim>\<open>load_state_dict\<close> raises on an object that is
  not a state of its module.
\<close>

record ('w, 'o) training_state =
  model :: 'w
  optimizer :: 'o
  epoch :: int
  previous_best_iou :: real
  previous_best_acc :: real

definition model_load_state_dict :: "('w, 'o) pyval \<Rightarrow> 'w outcome" where
  "model_load_state_dict v = (case v of StateDict w \<Rightarrow> Returns w | _ \<Rightarrow> Raises TypeError)"

definition optimizer_load_state_dict :: "('w, 'o) pyval \<Rightarrow> 'o outcome" where
  "optimizer_load_state_dict v = (case v of OptState s \<Rightarrow> Returns s | _ \<Rightarrow> Raises TypeError)"

definition as_int :: "('w, 'o) pyval \<Rightarrow> int outcome" where
  "as_int v = (case v of PyInt i \<Rightarrow> Returns i | _ \<Rightarrow> Raises TypeError)"

definition as_float :: "('w, 'o) pyval \<Rightarrow> real outcome" where
  "as_float v =
     (case v of PyFloat x \<Rightarrow> Returns x | PyInt i \<Rightarrow> Returns (real_of_int i) | _ \<Rightarrow> Raises TypeError)"

text \<open>Lines 141 to 144: the state before any checkpoint is looked at.\<close>

definition initial_state :: "'w \<Rightarrow> 'o \<Rightarrow> ('w, 'o) training_state" where
  "initial_state w0 o0 =
     \<lparr>model = w0, optimizer = o0, epoch = - 1, previous_best_iou = 0, previous_best_acc = 0\<rparr>"

text \<open>
  Lines 146 to 152, on every rank. \<^verbatim>\<open>os.path.exists\<close> is the only test; nothing catches what
  the five reads raise.
\<close>

definition main_resume :: "'w \<Rightarrow> 'o \<Rightarrow> (string \<Rightarrow> ('w, 'o) saved_file option) \<Rightarrow> ('w, 'o) training_state outcome" where
  "main_resume w0 o0 dir =
     (case dir ''latest.pth'' of
        None \<Rightarrow> Returns (initial_state w0 o0)
      | Some f \<Rightarrow>
          obind (torch_load f) (\<lambda>checkpoint.
          obind (getitem checkpoint ''model'') (\<lambda>v.
          obind (model_load_state_dict v) (\<lambda>w.
          obind (getitem checkpoint ''optimizer'') (\<lambda>v.
          obind (optimizer_load_state_dict v) (\<lambda>s.
          obind (getitem checkpoint ''epoch'') (\<lambda>v.
          obind (as_int v) (\<lambda>e.
          obind (getitem checkpoint ''previous_best_iou'') (\<lambda>v.
          obind (as_float v) (\<lambda>best_iou.
          obind (getitem checkpoint ''previous_best_acc'') (\<lambda>v.
          obind (as_float v) (\<lambda>best_acc.
            Returns \<lparr>model = w, optimizer = s, epoch = e,
                     previous_best_iou = best_iou, previous_best_acc = best_acc\<rparr>))))))))))))"

text \<open>
  The keys that lines 148 to 152 read, and a file that cannot be a checkpoint: one that
  does not unpickle, or a dictionary that lacks one of the keys.
\<close>

definition checkpoint_keys :: "string list" where
  "checkpoint_keys =
     [''model'', ''optimizer'', ''epoch'', ''previous_best_iou'', ''previous_best_acc'']"

definition malformed :: "('w, 'o) saved_file \<Rightarrow> bool" where
  "malformed f =
     (case f of Unreadable \<Rightarrow> True
      | Pickled d \<Rightarrow> \<not> list_all (\<lambda>k. d k \<noteq> None) checkpoint_keys)"

text \<open>Line 157: \<^verbatim>\<open>range(epoch + 1, cfg['epochs'])\<close>.\<close>

definition epochs_to_run :: "cfg \<Rightarrow> ('w, 'o) training_state \<Rightarrow> int list" where
  "epochs_to_run c st = [epoch st + 1 .. cfg_epochs c - 1]"

text \<open>Python's \<^verbatim>\<open>max(a, b)\<close>: the first argument unless the second is greater.\<close>

definition py_max :: "real \<Rightarrow> real \<Rightarrow> real" where
  "py_max a b = (if a < b then b else a)"

text \<open>Lines 212 to 218: the dictionary that is saved.\<close>

definition checkpoint_of :: "('w, 'o) training_state \<Rightarrow> ('w, 'o) pydict" where
  "checkpoint_of st =
     [''model'' \<mapsto> StateDict (model st),
      ''optimizer'' \<mapsto> OptState (optimizer st),
      ''epoch'' \<mapsto> PyInt (epoch st),
      ''previous_best_iou'' \<mapsto> PyFloat (previous_best_iou st),
      ''previous_best_acc'' \<mapsto> PyFloat (previous_best_acc st)]"

text \<open>An entry of the record that a file of the save directory holds, if there is one.\<close>

definition recorded :: "('w, 'o) storage \<Rightarrow> string \<Rightarrow> string \<Rightarrow> ('w, 'o) pyval option" where
  "recorded fs name key =
     (case files fs name of Some (Pickled d) \<Rightarrow> d key | _ \<Rightarrow> None)"

text \<open>
  Lines 206 to 221, at the end of epoch \<open>e\<close>, with the weights \<open>w\<close> and optimizer state \<open>s\<close>
  that training left and the pair \<^verbatim>\<open>evaluate\<close> returned. Indexing the per-class array at 1
  raises when it has fewer than two entries.
\<close>

definition main_epoch_end ::
  "nat \<Rightarrow> int \<Rightarrow> 'w \<Rightarrow> 'o \<Rightarrow> real list \<Rightarrow> real
     \<Rightarrow> ('w, 'o) training_state \<times> ('w, 'o) storage
     \<Rightarrow> (('w, 'o) training_state \<times> ('w, 'o) storage) outcome" where
  "main_epoch_end rank e w s iou_class overall_acc cur =
     (if length iou_class \<le> 1 then Raises IndexError
      else
        let st = fst cur; fs = snd cur;
            is_best = (iou_class ! 1 \<ge> previous_best_iou st);
            best_iou = py_max (iou_class ! 1) (previous_best_iou st);
            best_acc = (if is_best then overall_acc else previous_best_acc st);
            st' = \<lparr>model = w, optimizer = s, epoch = e,
                   previous_best_iou = best_iou, previous_best_acc = best_acc\<rparr>;
            checkpoint = checkpoint_of st'
        in if rank = 0
           then let fs1 = torch_save checkpoint ''latest.pth'' fs
                in Returns (st', if is_best then torch_save checkpoint ''best.pth'' fs1 else fs1)
           else Returns (st', fs))"

text \<open>
  What training and the validation loaders yield in one epoch, as the process observes it:
  the weights and optimizer state after the last step, and the counts of the validation
  pass on every rank.
\<close>

record ('w, 'o) epoch_obs =
  trained_model :: 'w
  trained_optimizer :: 'o
  val_shards :: "shard list"

text \<open>One pass of the epoch loop (lines 158 to 221).\<close>

definition main_epoch ::
  "nat \<Rightarrow> cfg \<Rightarrow> int \<Rightarrow> (int \<Rightarrow> ('w, 'o) epoch_obs) \<Rightarrow> int
     \<Rightarrow> ('w, 'o) training_state \<times> ('w, 'o) storage
     \<Rightarrow> (('w, 'o) training_state \<times> ('w, 'o) storage) outcome" where
  "main_epoch rank c len obs e cur =
     obind (train_steps c len e [0 .. len - 1]) (\<lambda>lrs.
     obind (evaluate (cfg_nclass c) (val_shards (obs e)) rank) (\<lambda>r.
       main_epoch_end rank e (trained_model (obs e)) (trained_optimizer (obs e))
         (fst r) (snd r) cur))"

text \<open>The epoch loop; it returns the state and the directory after each epoch, in order.\<close>

fun run_epochs ::
  "nat \<Rightarrow> cfg \<Rightarrow> int \<Rightarrow> (int \<Rightarrow> ('w, 'o) epoch_obs) \<Rightarrow> int list
     \<Rightarrow> ('w, 'o) training_state \<times> ('w, 'o) storage
     \<Rightarrow> (('w, 'o) training_state \<times> ('w, 'o) storage) list outcome" where
  "run_epochs rank c len obs [] cur = Returns []"
| "run_epochs rank c len obs (e # es) cur =
     obind (main_epoch rank c len obs e cur) (\<lambda>nxt.
     obind (run_epochs rank c len obs es nxt) (\<lambda>rest. Returns (nxt # rest)))"

text \<open>\<^verbatim>\<open>main\<close> from line 141 on, for the worker of the given rank.\<close>

definition main ::
  "nat \<Rightarrow> cfg \<Rightarrow> int \<Rightarrow> 'w \<Rightarrow> 'o \<Rightarrow> (int \<Rightarrow> ('w, 'o) epoch_obs) \<Rightarrow> ('w, 'o) storage
     \<Rightarrow> (('w, 'o) training_state \<times> ('w, 'o) storage) list outcome" where
  "main rank c len w0 o0 obs fs =
     obind (main_resume w0 o0 (files fs)) (\<lambda>st.
       run_epochs rank c len obs (epochs_to_run c st) (st, fs))"

text \<open>
  A validation pass on two workers with one batch of four pixels each, used below to run
  the definitions.
\<close>

definition two_workers :: "shard list" where
  "two_workers =
     [[\<lparr>bc_intersection = [2, 1], bc_union = [3, 2], bc_target = [3, 1],
        bc_correct = 3, bc_numel = 4\<rparr>],
      [\<lparr>bc_intersection = [1, 0], bc_union = [3, 3], bc_target = [1, 3],
        bc_correct = 1, bc_numel = 4\<rparr>]]"


text \<open>A small configuration, used below to run the definitions.\<close>

definition demo_cfg :: cfg where
  "demo_cfg = \<lparr>cfg_batch_size = 4, cfg_epochs = 2, cfg_lr = 1, cfg_lr_multi = 10, cfg_nclass = 2\<rparr>"


text \<open>
  A run of two epochs on two workers, from an empty save directory: the second validation
  pass finds no changed pixel right, so the first epoch stays the best.
\<close>

definition two_workers_later :: "shard list" where
  "two_workers_later =
     [[\<lparr>bc_intersection = [2, 0], bc_union = [4, 2], bc_target = [3, 1],
        bc_correct = 2, bc_numel = 4\<rparr>],
      [\<lparr>bc_intersection = [1, 0], bc_union = [3, 3], bc_target = [1, 3],
        bc_correct = 1, bc_numel = 4\<rparr>]]"

definition demo_obs :: "int \<Rightarrow> (nat, nat) epoch_obs" where
  "demo_obs e =
     \<lparr>trained_model = nat (e + 1), trained_optimizer = nat (e + 11),
      val_shards = (if e = 0 then two_workers else two_workers_later)\<rparr>"

definition empty_storage :: "(nat, nat) storage" where
  "empty_storage = \<lparr>files = (\<lambda>name. None), written = []\<rparr>"

definition demo_state :: "(nat, nat) training_state" where
  "demo_state =
     \<lparr>model = 7, optimizer = 8, epoch = 3, previous_best_iou = 40, previous_best_acc = 90\<rparr>"

text \<open>A checkpoint that lost its epoch entry, and a directory that holds a saved state.\<close>

definition truncated_checkpoint :: "(nat, nat) saved_file" where
  "truncated_checkpoint = Pickled ((checkpoint_of demo_state)(''epoch'' := None))"

definition resumed_storage :: "(nat, nat) storage" where
  "resumed_storage = torch_save (checkpoint_of demo_state) ''latest.pth'' empty_storage"

section \<open>Count arrays and the evaluation loop\<close>

lemma length_vadd: "length (vadd a b) = min (length a) (length b)"
  by (simp add: vadd_def)

lemma nth_vadd: "c < length a \<Longrightarrow> c < length b \<Longrightarrow> vadd a b ! c = a ! c + b ! c"
  by (simp add: vadd_def)

lemma vsum_shape:
  "vs \<noteq> [] \<Longrightarrow> list_all (\<lambda>v. length v = n) vs \<Longrightarrow> length (vsum vs) = n"
  by (induction vs rule: vsum.induct) (simp_all add: length_vadd)

lemma vsum_nth:
  "vs \<noteq> [] \<Longrightarrow> list_all (\<lambda>v. length v = n) vs \<Longrightarrow> c < n \<Longrightarrow>
     vsum vs ! c = sum_list (map (\<lambda>v. v ! c) vs)"
proof (induction vs rule: vsum.induct)
  case (3 v w ws)
  then have "length (vsum (w # ws)) = n"
    using vsum_shape [of "w # ws" n] by simp
  with 3 show ?case by (simp add: nth_vadd)
qed simp_all

lemma foldl_vadd_shape:
  "length z = n \<Longrightarrow> list_all (\<lambda>v. length v = n) vs \<Longrightarrow> length (foldl vadd z vs) = n"
  by (induction vs arbitrary: z) (simp_all add: length_vadd)

lemma foldl_vadd_nth:
  "length z = n \<Longrightarrow> list_all (\<lambda>v. length v = n) vs \<Longrightarrow> c < n \<Longrightarrow>
     foldl vadd z vs ! c = z ! c + sum_list (map (\<lambda>v. v ! c) vs)"
  by (induction vs arbitrary: z) (simp_all add: length_vadd nth_vadd)

lemma all_reduce_returns:
  "list_all (\<lambda>s. length s = N) shards \<Longrightarrow> k < N \<Longrightarrow>
     all_reduce shards k field = Returns (vsum (map (\<lambda>s. field (s ! k)) shards))"
  by (simp add: all_reduce_def list_all_iff)

lemma sum_list_sum_swap:
  "sum_list (map (\<lambda>s. \<Sum>j = a..<b. g s j) xs) = (\<Sum>j = a..<b. sum_list (map (\<lambda>s. g s j) xs))"
  by (induction xs) (simp_all add: sum.distrib)

lemma sum_list_nth_range:
  "sum_list (map h s) = (\<Sum>j = 0..<length s. h (s ! j))"
proof -
  have "sum_list (map h s) = (\<Sum>j = 0..<length (map h s). map h s ! j)"
    by (rule sum_list_sum_nth)
  also have "\<dots> = (\<Sum>j = 0..<length s. h (s ! j))"
    by (rule sum.cong) simp_all
  finally show ?thesis .
qed

lemma reduced_shape:
  assumes "well_shaped nclass shards" "list_all (\<lambda>s. length s = N) shards" "k < N" "shards \<noteq> []"
    and "field = bc_intersection \<or> field = bc_union \<or> field = bc_target"
  shows "length (vsum (map (\<lambda>s. field (s ! k)) shards)) = nclass"
proof -
  have "list_all (\<lambda>v. length v = nclass) (map (\<lambda>s. field (s ! k)) shards)"
    using assms by (auto simp: well_shaped_def list_all_iff)
  then show ?thesis using assms(4) by (simp add: vsum_shape)
qed

lemma reduced_nth:
  assumes "well_shaped nclass shards" "list_all (\<lambda>s. length s = N) shards" "k < N" "shards \<noteq> []"
    and "field = bc_intersection \<or> field = bc_union \<or> field = bc_target" "c < nclass"
  shows "vsum (map (\<lambda>s. field (s ! k)) shards) ! c = sum_list (map (\<lambda>s. field (s ! k) ! c) shards)"
proof -
  have "list_all (\<lambda>v. length v = nclass) (map (\<lambda>s. field (s ! k)) shards)"
    using assms by (auto simp: well_shaped_def list_all_iff)
  then show ?thesis using assms(4,6) vsum_nth [of "map (\<lambda>s. field (s ! k)) shards" nclass c]
    by (simp add: comp_def)
qed

lemma evaluate_loop_returns:
  assumes "well_shaped nclass shards" "list_all (\<lambda>s. length s = N) shards" "shards \<noteq> []"
  shows "k + length bs = N \<Longrightarrow> length (intersection_meter m) = nclass \<Longrightarrow>
     length (union_meter m) = nclass \<Longrightarrow>
     \<exists>m'. evaluate_loop shards k bs m = Returns m'
       \<and> length (intersection_meter m') = nclass \<and> length (union_meter m') = nclass
       \<and> (\<forall>c<nclass. intersection_meter m' ! c = intersection_meter m ! c
             + (\<Sum>j = k..<N. sum_list (map (\<lambda>s. bc_intersection (s ! j) ! c) shards)))
       \<and> (\<forall>c<nclass. union_meter m' ! c = union_meter m ! c
             + (\<Sum>j = k..<N. sum_list (map (\<lambda>s. bc_union (s ! j) ! c) shards)))
       \<and> correct_pixel m' = correct_pixel m + sum_list (map bc_correct bs)
       \<and> total_pixel m' = total_pixel m + sum_list (map bc_numel bs)"
proof (induction bs arbitrary: k m)
  case Nil
  then show ?case by simp
next
  case (Cons b bs)
  let ?ri = "vsum (map (\<lambda>s. bc_intersection (s ! k)) shards)"
  let ?ru = "vsum (map (\<lambda>s. bc_union (s ! k)) shards)"
  let ?m1 = "\<lparr>intersection_meter = vadd (intersection_meter m) ?ri,
          union_meter = vadd (union_meter m) ?ru,
          correct_pixel = correct_pixel m + bc_correct b,
          total_pixel = total_pixel m + bc_numel b\<rparr>"
  from Cons.prems have k: "k < N" and k': "Suc k + length bs = N" by simp_all
  have li: "length ?ri = nclass" and lu: "length ?ru = nclass"
    using reduced_shape [OF assms(1,2) k assms(3)] by simp_all
  have ni: "\<And>c. c < nclass \<Longrightarrow> ?ri ! c = sum_list (map (\<lambda>s. bc_intersection (s ! k) ! c) shards)"
    and nu: "\<And>c. c < nclass \<Longrightarrow> ?ru ! c = sum_list (map (\<lambda>s. bc_union (s ! k) ! c) shards)"
    using reduced_nth [OF assms(1,2) k assms(3)] by simp_all
  have step: "evaluate_loop shards k (b # bs) m = evaluate_loop shards (Suc k) bs ?m1"
    using all_reduce_returns [OF assms(2) k] by simp
  have l1: "length (intersection_meter ?m1) = nclass" "length (union_meter ?m1) = nclass"
    using Cons.prems li lu by (simp_all add: length_vadd)
  from Cons.IH [OF k' l1] obtain m' where m': "evaluate_loop shards (Suc k) bs ?m1 = Returns m'"
    "length (intersection_meter m') = nclass" "length (union_meter m') = nclass"
    "\<forall>c<nclass. intersection_meter m' ! c = intersection_meter ?m1 ! c
             + (\<Sum>j = Suc k..<N. sum_list (map (\<lambda>s. bc_intersection (s ! j) ! c) shards))"
    "\<forall>c<nclass. union_meter m' ! c = union_meter ?m1 ! c
             + (\<Sum>j = Suc k..<N. sum_list (map (\<lambda>s. bc_union (s ! j) ! c) shards))"
    "correct_pixel m' = correct_pixel ?m1 + sum_list (map bc_correct bs)"
    "total_pixel m' = total_pixel ?m1 + sum_list (map bc_numel bs)"
    by blast
  have split: "\<And>g. (\<Sum>j = k..<N. g j) = g k + (\<Sum>j = Suc k..<N. g j)" for g :: "nat \<Rightarrow> nat"
    using k by (simp add: sum.atLeast_Suc_lessThan)
  have "\<forall>c<nclass. intersection_meter m' ! c = intersection_meter m ! c
             + (\<Sum>j = k..<N. sum_list (map (\<lambda>s. bc_intersection (s ! j) ! c) shards))"
    using m'(4) Cons.prems li ni by (simp add: nth_vadd split)
  moreover have "\<forall>c<nclass. union_meter m' ! c = union_meter m ! c
             + (\<Sum>j = k..<N. sum_list (map (\<lambda>s. bc_union (s ! j) ! c) shards))"
    using m'(5) Cons.prems lu nu by (simp add: nth_vadd split)
  ultimately show ?case using step m'(1,2,3,6,7) by simp
qed

lemma local_sum_shape:
  "list_all (\<lambda>b. length (field b) = nclass) s \<Longrightarrow> length (local_sum nclass field s) = nclass"
  unfolding local_sum_def by (rule foldl_vadd_shape) (simp_all add: list_all_iff)

lemma local_sum_nth:
  "list_all (\<lambda>b. length (field b) = nclass) s \<Longrightarrow> c < nclass \<Longrightarrow>
     local_sum nclass field s ! c = sum_list (map (\<lambda>b. field b ! c) s)"
  unfolding local_sum_def
  using foldl_vadd_nth [of "replicate nclass 0" nclass "map field s" c]
  by (simp add: list_all_iff comp_def)

lemma reduce_once_shape:
  assumes "well_shaped nclass shards" "shards \<noteq> []"
    and "field = bc_intersection \<or> field = bc_union \<or> field = bc_target"
  shows "length (reduce_once nclass field shards) = nclass"
proof -
  have "list_all (\<lambda>v. length v = nclass) (map (local_sum nclass field) shards)"
    using assms(1,3) by (auto simp: well_shaped_def list_all_iff intro!: local_sum_shape)
  then show ?thesis unfolding reduce_once_def using assms(2) by (simp add: vsum_shape)
qed

lemma reduce_once_nth:
  assumes "well_shaped nclass shards" "shards \<noteq> []" "list_all (\<lambda>s. length s = N) shards"
    and "field = bc_intersection \<or> field = bc_union \<or> field = bc_target" "c < nclass"
  shows "reduce_once nclass field shards ! c
           = (\<Sum>j = 0..<N. sum_list (map (\<lambda>s. field (s ! j) ! c) shards))"
proof -
  have each: "\<And>s. s \<in> set shards \<Longrightarrow> list_all (\<lambda>b. length (field b) = nclass) s"
    using assms(1,4) by (auto simp: well_shaped_def list_all_iff)
  then have "list_all (\<lambda>v. length v = nclass) (map (local_sum nclass field) shards)"
    by (auto simp: list_all_iff intro!: local_sum_shape)
  then have "reduce_once nclass field shards ! c
      = sum_list (map (\<lambda>s. local_sum nclass field s ! c) shards)"
    unfolding reduce_once_def using assms(2,5)
      vsum_nth [of "map (local_sum nclass field) shards" nclass c] by (simp add: comp_def)
  also have "\<dots> = sum_list (map (\<lambda>s. \<Sum>j = 0..<N. field (s ! j) ! c) shards)"
  proof (rule arg_cong [where f = sum_list], rule map_cong [OF refl])
    fix s assume s: "s \<in> set shards"
    then have "length s = N" using assms(3) by (simp add: list_all_iff)
    then show "local_sum nclass field s ! c = (\<Sum>j = 0..<N. field (s ! j) ! c)"
      using local_sum_nth [OF each [OF s] assms(5)] sum_list_nth_range [of "\<lambda>b. field b ! c" s]
      by simp
  qed
  also have "\<dots> = (\<Sum>j = 0..<N. sum_list (map (\<lambda>s. field (s ! j) ! c) shards))"
    by (rule sum_list_sum_swap)
  finally show ?thesis .
qed


section \<open>The claims about evaluate\<close>

text \<open>
  C8. When every rank's validation loader yields the same number of batches and every count
  array has one entry per class, the per-class IoU that \<^verbatim>\<open>evaluate\<close> returns is
  \<open>intersection / (union + 1e-10) * 100\<close> on the counts summed over all batches of all
  shards: reducing every batch and accumulating the reduced arrays gives the same counts as
  accumulating per worker and reducing once at the end. (The pass returns; the second
  component is the accuracy as the code computes it.)
\<close>

theorem evaluate_reduction_order:
  assumes "rank < length shards" "well_shaped nclass shards"
    and "list_all (\<lambda>s. length s = length (shards ! rank)) shards"
    and "0 < sum_list (map bc_numel (shards ! rank))"
  shows "evaluate nclass shards rank =
     Returns (iou_of (reduce_once nclass bc_intersection shards)
                (reduce_once nclass bc_union shards),
              real (sum_list (map bc_correct (shards ! rank)))
                / real (sum_list (map bc_numel (shards ! rank))) * 100)"
proof -
  let ?N = "length (shards ! rank)"
  have ne: "shards \<noteq> []" using assms(1) by auto
  obtain m' where m': "evaluate_loop shards 0 (shards ! rank) (fresh_meters nclass) = Returns m'"
    "length (intersection_meter m') = nclass" "length (union_meter m') = nclass"
    "\<forall>c<nclass. intersection_meter m' ! c = intersection_meter (fresh_meters nclass) ! c
             + (\<Sum>j = 0..<?N. sum_list (map (\<lambda>s. bc_intersection (s ! j) ! c) shards))"
    "\<forall>c<nclass. union_meter m' ! c = union_meter (fresh_meters nclass) ! c
             + (\<Sum>j = 0..<?N. sum_list (map (\<lambda>s. bc_union (s ! j) ! c) shards))"
    "correct_pixel m' = correct_pixel (fresh_meters nclass) + sum_list (map bc_correct (shards ! rank))"
    "total_pixel m' = total_pixel (fresh_meters nclass) + sum_list (map bc_numel (shards ! rank))"
    using evaluate_loop_returns [OF assms(2,3) ne, of 0 "shards ! rank" "fresh_meters nclass"]
    by (auto simp: fresh_meters_def)
  have "intersection_meter m' = reduce_once nclass bc_intersection shards"
  proof (rule nth_equalityI)
    show "length (intersection_meter m') = length (reduce_once nclass bc_intersection shards)"
      using m'(2) reduce_once_shape [OF assms(2) ne] by simp
    fix c assume "c < length (intersection_meter m')"
    then have c: "c < nclass" using m'(2) by simp
    show "intersection_meter m' ! c = reduce_once nclass bc_intersection shards ! c"
      using m'(4) c reduce_once_nth [OF assms(2) ne assms(3) _ c, of bc_intersection]
      by (simp add: fresh_meters_def)
  qed
  moreover have "union_meter m' = reduce_once nclass bc_union shards"
  proof (rule nth_equalityI)
    show "length (union_meter m') = length (reduce_once nclass bc_union shards)"
      using m'(3) reduce_once_shape [OF assms(2) ne] by simp
    fix c assume "c < length (union_meter m')"
    then have c: "c < nclass" using m'(3) by simp
    show "union_meter m' ! c = reduce_once nclass bc_union shards ! c"
      using m'(5) c reduce_once_nth [OF assms(2) ne assms(3) _ c, of bc_union]
      by (simp add: fresh_meters_def)
  qed
  moreover have "total_pixel m' \<noteq> 0"
  proof -
    have "total_pixel m' = sum_list (map bc_numel (shards ! rank))"
      using m'(7) by (simp add: fresh_meters_def)
    with assms(4) show ?thesis by linarith
  qed
  ultimately show ?thesis
    using m'(1,6,7) by (simp add: evaluate_def fresh_meters_def)
qed

theorem evaluate_reduction_order_witness:
  "evaluate 2 two_workers 0 =
     Returns (iou_of (reduce_once 2 bc_intersection two_workers)
                (reduce_once 2 bc_union two_workers),
              real (sum_list (map bc_correct (two_workers ! 0)))
                / real (sum_list (map bc_numel (two_workers ! 0))) * 100)
   \<and> iou_of (reduce_once 2 bc_intersection two_workers) (reduce_once 2 bc_union two_workers)
       = [300 / (6 + 1 / 10 ^ 10), 100 / (5 + 1 / 10 ^ 10)]"
proof -
  have a: "(0::nat) < length two_workers" by (simp add: two_workers_def)
  have b: "well_shaped 2 two_workers" by (simp add: well_shaped_def two_workers_def)
  have c: "list_all (\<lambda>s. length s = length (two_workers ! 0)) two_workers"
    by (simp add: two_workers_def)
  have d: "0 < sum_list (map bc_numel (two_workers ! 0))" by (simp add: two_workers_def)
  have e: "iou_of (reduce_once 2 bc_intersection two_workers) (reduce_once 2 bc_union two_workers)
       = [300 / (6 + 1 / 10 ^ 10), 100 / (5 + 1 / 10 ^ 10)]"
    by code_simp
  show ?thesis using evaluate_reduction_order [OF a b c d] e by simp
qed

text \<open>
  C1. The accuracy that \<^verbatim>\<open>evaluate\<close> returns is not the aggregate over all shards: the two
  pixel meters are fed the worker's own numbers and never pass through the collective sum.
  On the two-worker pass above rank 0 returns 75 and rank 1 returns 25, while the aggregate
  of correct over total pixels is 50; the per-class IoU is the same on both ranks.
\<close>

theorem evaluate_accuracy_local_shard:
  "evaluate 2 two_workers 0 = Returns ([300 / (6 + 1 / 10 ^ 10), 100 / (5 + 1 / 10 ^ 10)], 75)
   \<and> evaluate 2 two_workers 1 = Returns ([300 / (6 + 1 / 10 ^ 10), 100 / (5 + 1 / 10 ^ 10)], 25)
   \<and> global_accuracy two_workers = 50"
  by code_simp


section \<open>The resize to a multiple\<close>

lemma py_int_half:
  assumes "0 < m" "0 \<le> d"
  shows "py_int (real_of_int d / real_of_int m + 1 / 2) = (2 * d + m) div (2 * m)"
proof -
  have "real_of_int d / real_of_int m + 1 / 2 = real_of_int (2 * d + m) / real_of_int (2 * m)"
    using assms by (simp add: field_simps)
  moreover have "0 \<le> real_of_int (2 * d + m) / real_of_int (2 * m)"
    using assms by simp
  ultimately show ?thesis
    by (simp only: py_int_def if_True floor_divide_of_int_eq)
qed

lemma new_size_nearest:
  "0 < m \<Longrightarrow> 0 \<le> d \<Longrightarrow> new_size m d = Returns (nearest_multiple m d)"
  by (simp add: new_size_def nearest_multiple_def py_int_half)

lemma nearest_cases:
  assumes "0 < (m::int)"
  shows "(2 * d + m) div (2 * m) = (if 2 * (d mod m) < m then d div m else d div m + 1)"
proof -
  let ?q = "d div m" and ?r = "d mod m"
  have r: "0 \<le> ?r" "?r < m" using assms by simp_all
  have "2 * d + m = 2 * (?q * m + ?r) + m" by simp
  also have "\<dots> = ?q * (2 * m) + (2 * ?r + m)" by (simp only: algebra_simps)
  finally have d: "2 * d + m = ?q * (2 * m) + (2 * ?r + m)" .
  show ?thesis
  proof (cases "2 * ?r < m")
    case True
    have "0 \<le> 2 * ?r + m" "2 * ?r + m < 2 * m" using r True by linarith+
    then have "(2 * ?r + m) div (2 * m) = 0" by (rule div_pos_pos_trivial)
    then have "(?q * (2 * m) + (2 * ?r + m)) div (2 * m) = ?q"
      using assms by simp
    then show ?thesis by (simp only: d True if_True)
  next
    case False
    have "?q * (2 * m) + (2 * ?r + m) = (?q + 1) * (2 * m) + (2 * ?r - m)"
      by (simp add: algebra_simps)
    moreover have "((?q + 1) * (2 * m) + (2 * ?r - m)) div (2 * m) = ?q + 1"
    proof -
      have "0 \<le> 2 * ?r - m" "2 * ?r - m < 2 * m" using r False by linarith+
      then have "(2 * ?r - m) div (2 * m) = 0" by (rule div_pos_pos_trivial)
      then show ?thesis using assms by simp
    qed
    ultimately show ?thesis by (simp only: d False if_False)
  qed
qed

lemma nearest_multiple_props:
  assumes "0 < m"
  shows "m dvd nearest_multiple m d"
    and "2 * \<bar>nearest_multiple m d - d\<bar> \<le> m"
    and "d \<le> nearest_multiple m d \<longleftrightarrow> d mod m = 0 \<or> m \<le> 2 * (d mod m)"
proof -
  let ?q = "d div m" and ?r = "d mod m"
  have r: "0 \<le> ?r" "?r < m" using assms by simp_all
  have d: "d = ?q * m + ?r" by simp
  show "m dvd nearest_multiple m d" by (simp add: nearest_multiple_def)
  have n: "nearest_multiple m d = (if 2 * ?r < m then ?q * m else ?q * m + m)"
    unfolding nearest_multiple_def nearest_cases [OF assms] by (simp add: algebra_simps)
  have diff: "nearest_multiple m d - d = (if 2 * ?r < m then - ?r else m - ?r)"
    unfolding n using d by (smt (verit))
  show "2 * \<bar>nearest_multiple m d - d\<bar> \<le> m"
    unfolding diff using r by auto
  have "d \<le> nearest_multiple m d \<longleftrightarrow> 0 \<le> nearest_multiple m d - d" by simp
  also have "\<dots> \<longleftrightarrow> ?r = 0 \<or> m \<le> 2 * ?r"
    unfolding diff using r by auto
  finally show "d \<le> nearest_multiple m d \<longleftrightarrow> d mod m = 0 \<or> m \<le> 2 * (d mod m)" .
qed

lemma round_up_multiple_props:
  assumes "0 < m"
  shows "m dvd round_up_multiple m d \<and> d \<le> round_up_multiple m d \<and> round_up_multiple m d < d + m"
proof -
  let ?x = "d + m - 1"
  have "?x = ?x div m * m + ?x mod m" by simp
  moreover have "0 \<le> ?x mod m" "?x mod m < m" using assms by simp_all
  ultimately have "?x div m * m \<le> ?x" "?x < ?x div m * m + m" by linarith+
  then show ?thesis unfolding round_up_multiple_def by simp
qed

lemma nearest_multiple_small:
  assumes "0 < m" "0 \<le> d" "2 * d < m"
  shows "nearest_multiple m d = 0"
proof -
  have "0 \<le> 2 * d + m" "2 * d + m < 2 * m" using assms by linarith+
  then have "(2 * d + m) div (2 * m) = 0" by (rule div_pos_pos_trivial)
  then show ?thesis by (simp add: nearest_multiple_def)
qed

lemma nearest_multiple_positive:
  assumes "0 < m" "m \<le> 2 * d"
  shows "0 < nearest_multiple m d"
proof -
  have "0 < 2 * m" "2 * m \<le> 2 * d + m" using assms by linarith+
  then have "0 < (2 * d + m) div (2 * m)" by (simp only: pos_imp_zdiv_pos_iff)
  then show ?thesis using assms(1) by (simp add: nearest_multiple_def)
qed

text \<open>
  C2, as the code has it. With a positive multiplier, \<^verbatim>\<open>evaluate\<close> resizes each spatial
  dimension to \<open>int(dim / multiplier + 0.5) * multiplier\<close>, which is the multiple of the
  multiplier nearest to the dimension (a tie going up) and lies below the dimension
  exactly when the remainder is non-zero and less than half the multiplier. When both
  dimensions are at least half the multiplier, it interpolates both images to that size,
  runs the network at that size and interpolates the prediction back to the original
  size, all three bilinear with aligned corners. A dimension below half the multiplier is
  resized to zero, and the first interpolation raises.
\<close>

theorem evaluate_resize_nearest_multiple:
  assumes "0 < m" "m \<le> 2 * h" "m \<le> 2 * w"
  shows "evaluate_resize (Some m) (h, w) =
           Returns [Interpolate (nearest_multiple m h, nearest_multiple m w) ''bilinear'' True,
                    Interpolate (nearest_multiple m h, nearest_multiple m w) ''bilinear'' True,
                    Forward (nearest_multiple m h, nearest_multiple m w),
                    Interpolate (h, w) ''bilinear'' True]
       \<and> new_size m h = Returns (nearest_multiple m h)
       \<and> m dvd nearest_multiple m h
       \<and> 2 * \<bar>nearest_multiple m h - h\<bar> \<le> m
       \<and> (h \<le> nearest_multiple m h \<longleftrightarrow> h mod m = 0 \<or> m \<le> 2 * (h mod m))
       \<and> (0 \<le> k \<and> 2 * k < m \<longrightarrow>
            new_size m k = Returns 0
          \<and> evaluate_resize (Some m) (k, w) = Raises RuntimeError
          \<and> evaluate_resize (Some m) (h, k) = Raises RuntimeError)"
proof -
  have pos: "0 < h" "0 < w" "0 \<le> h" "0 \<le> w" using assms by linarith+
  have "evaluate_resize (Some m) (h, w) =
           Returns [Interpolate (nearest_multiple m h, nearest_multiple m w) ''bilinear'' True,
                    Interpolate (nearest_multiple m h, nearest_multiple m w) ''bilinear'' True,
                    Forward (nearest_multiple m h, nearest_multiple m w),
                    Interpolate (h, w) ''bilinear'' True]"
    using assms(1) pos nearest_multiple_positive [OF assms(1,2)]
      nearest_multiple_positive [OF assms(1,3)]
    by (simp add: evaluate_resize_def interpolate_def new_size_nearest)
  moreover have "new_size m k = Returns 0
          \<and> evaluate_resize (Some m) (k, w) = Raises RuntimeError
          \<and> evaluate_resize (Some m) (h, k) = Raises RuntimeError"
    if "0 \<le> k \<and> 2 * k < m"
    using that assms(1) pos(3,4) nearest_multiple_small [of m k]
    by (simp add: evaluate_resize_def interpolate_def new_size_nearest)
  ultimately show ?thesis
    using assms(1) pos(3) nearest_multiple_props [OF assms(1), of h]
    by (simp add: new_size_nearest)
qed

theorem evaluate_resize_nearest_multiple_witness:
  "evaluate_resize (Some 14) (15, 21) =
           Returns [Interpolate (14, 28) ''bilinear'' True,
                    Interpolate (14, 28) ''bilinear'' True,
                    Forward (14, 28),
                    Interpolate (15, 21) ''bilinear'' True]
       \<and> new_size 14 15 = Returns 14
       \<and> new_size 14 6 = Returns 0
       \<and> evaluate_resize (Some 14) (6, 21) = Raises RuntimeError
       \<and> evaluate_resize (Some 14) (15, 6) = Raises RuntimeError"
  using evaluate_resize_nearest_multiple [of 14 15 21 6]
  by (simp add: nearest_multiple_def)

text \<open>
  The claim as stated fails: a height of 15 with the multiplier 14 is resized to 14, which
  is below 15, while the smallest multiple of 14 that is not below 15 is 28.
\<close>

theorem new_size_not_round_up:
  "new_size 14 15 = Returns 14 \<and> round_up_multiple 14 15 = 28"
  by (simp add: new_size_def py_int_def round_up_multiple_def)


section \<open>The configuration and the learning rate\<close>

text \<open>
  C10. On every rank and for every world size, the batch size the training loader is built
  with is twice the configured one: line 91 doubles the entry once, unconditionally, and
  nothing else touches it before line 135.
\<close>

theorem trainloader_batch_size_doubled:
  "trainloader_batch_size rank world_size c = 2 * cfg_batch_size c
   \<and> main_setup rank world_size c = c\<lparr>cfg_batch_size := 2 * cfg_batch_size c\<rparr>"
  by (simp add: trainloader_batch_size_def main_setup_def)

lemma lr_at_nonneg: "0 \<le> base \<Longrightarrow> 0 \<le> lr_at base i n"
  by (simp add: lr_at_def)

lemma lr_at_end: "n \<noteq> 0 \<Longrightarrow> lr_at base n n = 0"
  by (simp add: lr_at_def)

lemma lr_at_strict:
  assumes "0 < base" "0 < n" "i < j" "j \<le> n"
  shows "lr_at base j n < lr_at base i n"
proof -
  have "real_of_int i / real_of_int n < real_of_int j / real_of_int n"
    using assms by (simp add: divide_strict_right_mono)
  moreover have "real_of_int j / real_of_int n \<le> 1" using assms by simp
  ultimately have "0 \<le> 1 - real_of_int j / real_of_int n"
    "1 - real_of_int j / real_of_int n < 1 - real_of_int i / real_of_int n"
    by linarith+
  then have "(1 - real_of_int j / real_of_int n) powr (9 / 10)
      < (1 - real_of_int i / real_of_int n) powr (9 / 10)"
    by (intro powr_less_mono2) simp_all
  then show ?thesis unfolding lr_at_def using assms(1) by simp
qed

lemma train_steps_returns:
  "len * cfg_epochs c \<noteq> 0 \<Longrightarrow>
     train_steps c len e ks =
       Returns (map (\<lambda>k. (e * len + k, lr_at (cfg_lr c) (e * len + k) (len * cfg_epochs c),
                            lr_at (cfg_lr c) (e * len + k) (len * cfg_epochs c) * cfg_lr_multi c)) ks)"
  by (induction ks) (simp_all add: train_step_lr_def Let_def)

lemma global_iteration_range:
  assumes "0 < (len::int)" "0 \<le> e" "e < n" "0 \<le> k" "k < len"
  shows "0 \<le> e * len + k \<and> e * len + k < len * n"
proof -
  have "e * len + k < e * len + len" using assms by simp
  also have "\<dots> = (e + 1) * len" by (simp add: algebra_simps)
  also have "\<dots> \<le> n * len" using assms by (intro mult_right_mono) simp_all
  finally show ?thesis using assms by (simp add: mult.commute)
qed

text \<open>
  C5. For a positive base rate and a run of at least one step, the rate
  \<open>base * (1 - i / total_iters) ^ 0.9\<close> is non-negative on \<open>0 \<le> i \<le> total_iters\<close>, strictly
  smaller at a later iteration, and zero at \<open>total_iters\<close>. Every step \<open>k\<close> of epoch \<open>e\<close>
  evaluates it at the global counter \<open>e * len + k\<close>, which lies in that range, and writes
  the rate times \<open>lr_multi\<close> to the head's parameter group.
\<close>

theorem lr_schedule_decreasing:
  assumes "0 < cfg_lr c" "0 < len" "0 < cfg_epochs c"
    and "0 \<le> i" "i < j" "j \<le> len * cfg_epochs c"
    and "0 \<le> e" "e < cfg_epochs c"
  shows "0 \<le> lr_at (cfg_lr c) i (len * cfg_epochs c)
       \<and> 0 \<le> lr_at (cfg_lr c) j (len * cfg_epochs c)
       \<and> lr_at (cfg_lr c) j (len * cfg_epochs c) < lr_at (cfg_lr c) i (len * cfg_epochs c)
       \<and> lr_at (cfg_lr c) (len * cfg_epochs c) (len * cfg_epochs c) = 0
       \<and> train_steps c len e [0 .. len - 1] =
           Returns (map (\<lambda>k. (e * len + k,
                              lr_at (cfg_lr c) (e * len + k) (len * cfg_epochs c),
                              lr_at (cfg_lr c) (e * len + k) (len * cfg_epochs c) * cfg_lr_multi c))
                      [0 .. len - 1])
       \<and> list_all (\<lambda>k. 0 \<le> e * len + k \<and> e * len + k < len * cfg_epochs c) [0 .. len - 1]"
proof -
  have t: "0 < len * cfg_epochs c" using assms(2,3) by simp
  have t0: "len * cfg_epochs c \<noteq> 0" using assms(2,3) by simp
  have base: "0 \<le> cfg_lr c" using assms(1) by simp
  have a: "0 \<le> lr_at (cfg_lr c) i (len * cfg_epochs c)"
    and b: "0 \<le> lr_at (cfg_lr c) j (len * cfg_epochs c)"
    using lr_at_nonneg [OF base] by blast+
  have d: "lr_at (cfg_lr c) j (len * cfg_epochs c) < lr_at (cfg_lr c) i (len * cfg_epochs c)"
    using lr_at_strict [OF assms(1) t assms(5,6)] .
  have z: "lr_at (cfg_lr c) (len * cfg_epochs c) (len * cfg_epochs c) = 0"
    using lr_at_end [OF t0] .
  have s: "train_steps c len e [0 .. len - 1] =
           Returns (map (\<lambda>k. (e * len + k,
                              lr_at (cfg_lr c) (e * len + k) (len * cfg_epochs c),
                              lr_at (cfg_lr c) (e * len + k) (len * cfg_epochs c) * cfg_lr_multi c))
                      [0 .. len - 1])"
    using train_steps_returns [OF t0] .
  have r: "list_all (\<lambda>k. 0 \<le> e * len + k \<and> e * len + k < len * cfg_epochs c) [0 .. len - 1]"
    unfolding list_all_iff using global_iteration_range [OF assms(2,7,8)] by auto
  from a b d z s r show ?thesis by blast
qed

theorem lr_schedule_decreasing_witness:
  "0 \<le> lr_at (cfg_lr demo_cfg) 0 (2 * cfg_epochs demo_cfg)
       \<and> 0 \<le> lr_at (cfg_lr demo_cfg) 3 (2 * cfg_epochs demo_cfg)
       \<and> lr_at (cfg_lr demo_cfg) 3 (2 * cfg_epochs demo_cfg) < lr_at (cfg_lr demo_cfg) 0 (2 * cfg_epochs demo_cfg)
       \<and> lr_at (cfg_lr demo_cfg) (2 * cfg_epochs demo_cfg) (2 * cfg_epochs demo_cfg) = 0
       \<and> train_steps demo_cfg 2 1 [0 .. 2 - 1] =
           Returns (map (\<lambda>k. (1 * 2 + k,
                              lr_at (cfg_lr demo_cfg) (1 * 2 + k) (2 * cfg_epochs demo_cfg),
                              lr_at (cfg_lr demo_cfg) (1 * 2 + k) (2 * cfg_epochs demo_cfg) * cfg_lr_multi demo_cfg))
                      [0 .. 2 - 1])
       \<and> list_all (\<lambda>k. 0 \<le> 1 * 2 + k \<and> 1 * 2 + k < 2 * cfg_epochs demo_cfg) [0 .. 2 - 1]"
proof -
  have h: "0 < cfg_lr demo_cfg" "(0::int) < 2" "0 < cfg_epochs demo_cfg"
    "(0::int) \<le> 0" "(0::int) < 3" "3 \<le> 2 * cfg_epochs demo_cfg"
    "(0::int) \<le> 1" "1 < cfg_epochs demo_cfg"
    by (simp_all add: demo_cfg_def)
  show ?thesis by (rule lr_schedule_decreasing [OF h])
qed


section \<open>Loading a checkpoint\<close>

lemma obind_eq_Returns: "obind x f = Returns y \<longleftrightarrow> (\<exists>v. x = Returns v \<and> f v = Returns y)"
  by (cases x) auto

lemma obind_eq_Hangs: "obind x f = Hangs \<longleftrightarrow> x = Hangs \<or> (\<exists>v. x = Returns v \<and> f v = Hangs)"
  by (cases x) auto

lemma torch_load_Returns: "torch_load f = Returns d \<longleftrightarrow> f = Pickled d"
  by (cases f) (auto simp: torch_load_def)

lemma getitem_Returns: "getitem d k = Returns v \<longleftrightarrow> d k = Some v"
  by (auto simp: getitem_def split: option.splits)

lemma model_load_Returns: "model_load_state_dict v = Returns w \<longleftrightarrow> v = StateDict w"
  by (cases v) (auto simp: model_load_state_dict_def)

lemma optimizer_load_Returns: "optimizer_load_state_dict v = Returns s \<longleftrightarrow> v = OptState s"
  by (cases v) (auto simp: optimizer_load_state_dict_def)

lemma as_int_Returns: "as_int v = Returns i \<longleftrightarrow> v = PyInt i"
  by (cases v) (auto simp: as_int_def)

lemma loaders_no_hang:
  "torch_load f \<noteq> Hangs" "getitem d k \<noteq> Hangs" "model_load_state_dict v \<noteq> Hangs"
  "optimizer_load_state_dict v \<noteq> Hangs" "as_int v \<noteq> Hangs" "as_float v \<noteq> Hangs"
  by (auto simp: torch_load_def getitem_def model_load_state_dict_def
      optimizer_load_state_dict_def as_int_def as_float_def
      split: saved_file.splits option.splits pyval.splits)

lemma main_resume_no_hang: "main_resume w0 o0 dir \<noteq> Hangs"
  by (simp add: main_resume_def obind_eq_Hangs loaders_no_hang split: option.splits)

lemma main_resume_Returns:
  assumes "dir ''latest.pth'' = Some f" "main_resume w0 o0 dir = Returns st"
  shows "\<exists>d. f = Pickled d
           \<and> d ''model'' = Some (StateDict (model st))
           \<and> d ''optimizer'' = Some (OptState (optimizer st))
           \<and> d ''epoch'' = Some (PyInt (epoch st))
           \<and> (\<exists>v. d ''previous_best_iou'' = Some v \<and> as_float v = Returns (previous_best_iou st))
           \<and> (\<exists>v. d ''previous_best_acc'' = Some v \<and> as_float v = Returns (previous_best_acc st))"
  using assms
  by (auto simp: main_resume_def obind_eq_Returns torch_load_Returns getitem_Returns
      model_load_Returns optimizer_load_Returns as_int_Returns)

lemma main_resume_checkpoint:
  "dir ''latest.pth'' = Some (Pickled (checkpoint_of st)) \<Longrightarrow> main_resume w0 o0 dir = Returns st"
  by (simp add: main_resume_def torch_load_def getitem_def checkpoint_of_def
      model_load_state_dict_def optimizer_load_state_dict_def as_int_def as_float_def)

lemma main_resume_malformed:
  assumes "dir ''latest.pth'' = Some f" "malformed f"
  shows "\<exists>err. main_resume w0 o0 dir = Raises err"
proof (cases "main_resume w0 o0 dir")
  case Hangs
  then show ?thesis by (simp add: main_resume_no_hang)
next
  case (Raises e)
  then show ?thesis by blast
next
  case (Returns st)
  from main_resume_Returns [OF assms(1) Returns] assms(2) have False
    by (auto simp: malformed_def checkpoint_keys_def)
  then show ?thesis ..
qed

lemma main_resume_independent:
  "dir ''latest.pth'' = Some f \<Longrightarrow> main_resume w0 o0 dir = main_resume w1 o1 dir"
  by (simp add: main_resume_def)


section \<open>The epoch loop\<close>

lemma main_epoch_end_Returns:
  assumes "main_epoch_end rank e w s iou acc cur = Returns nxt"
  shows "1 < length iou"
    and "previous_best_iou (fst nxt) = max (previous_best_iou (fst cur)) (iou ! 1)"
    and "epoch (fst nxt) = e"
    and "rank = 0 \<Longrightarrow> files (snd nxt) ''latest.pth'' = Some (Pickled (checkpoint_of (fst nxt)))"
  using assms
  by (auto simp: main_epoch_end_def Let_def py_max_def torch_save_def max_def split: if_splits)

lemma main_epoch_Returns:
  assumes "main_epoch rank c len obs e cur = Returns nxt"
  shows "\<exists>iou acc. evaluate (cfg_nclass c) (val_shards (obs e)) rank = Returns (iou, acc)
           \<and> main_epoch_end rank e (trained_model (obs e)) (trained_optimizer (obs e)) iou acc cur
               = Returns nxt"
  using assms by (auto simp: main_epoch_def obind_eq_Returns)

lemma main_epoch_step:
  assumes "main_epoch rank c len obs e cur = Returns nxt"
  shows "\<exists>iou acc. evaluate (cfg_nclass c) (val_shards (obs e)) rank = Returns (iou, acc)
           \<and> 1 < length iou
           \<and> previous_best_iou (fst nxt) = max (previous_best_iou (fst cur)) (iou ! 1)"
    and "epoch (fst nxt) = e"
    and "rank = 0 \<Longrightarrow> files (snd nxt) ''latest.pth'' = Some (Pickled (checkpoint_of (fst nxt)))"
proof -
  from main_epoch_Returns [OF assms] obtain iou acc where
    ev: "evaluate (cfg_nclass c) (val_shards (obs e)) rank = Returns (iou, acc)" and
    en: "main_epoch_end rank e (trained_model (obs e)) (trained_optimizer (obs e)) iou acc cur
               = Returns nxt"
    by blast
  show "\<exists>iou acc. evaluate (cfg_nclass c) (val_shards (obs e)) rank = Returns (iou, acc)
           \<and> 1 < length iou
           \<and> previous_best_iou (fst nxt) = max (previous_best_iou (fst cur)) (iou ! 1)"
    using ev main_epoch_end_Returns(1,2) [OF en] by blast
  show "epoch (fst nxt) = e" using main_epoch_end_Returns(3) [OF en] .
  show "rank = 0 \<Longrightarrow> files (snd nxt) ''latest.pth'' = Some (Pickled (checkpoint_of (fst nxt)))"
    using main_epoch_end_Returns(4) [OF en] .
qed

lemma run_epochs_Cons:
  "run_epochs rank c len obs (e # es) cur = Returns trace \<longleftrightarrow>
     (\<exists>nxt rest. main_epoch rank c len obs e cur = Returns nxt
        \<and> run_epochs rank c len obs es nxt = Returns rest \<and> trace = nxt # rest)"
  by (auto simp: obind_eq_Returns)

lemma run_epochs_epochs:
  "run_epochs rank c len obs es cur = Returns trace \<Longrightarrow> map (\<lambda>x. epoch (fst x)) trace = es"
proof (induction es arbitrary: cur trace)
  case Nil
  then show ?case by simp
next
  case (Cons e es)
  from Cons.prems obtain nxt rest where
    st: "main_epoch rank c len obs e cur = Returns nxt" and
    re: "run_epochs rank c len obs es nxt = Returns rest" and tr: "trace = nxt # rest"
    unfolding run_epochs_Cons by blast
  show ?case using Cons.IH [OF re] main_epoch_step(2) [OF st] by (simp add: tr)
qed

lemma run_epochs_length:
  "run_epochs rank c len obs es cur = Returns trace \<Longrightarrow> length trace = length es"
  using run_epochs_epochs [of rank c len obs es cur trace] by (metis length_map)

lemma run_epochs_latest:
  "run_epochs 0 c len obs es cur = Returns trace \<Longrightarrow>
     list_all (\<lambda>x. files (snd x) ''latest.pth'' = Some (Pickled (checkpoint_of (fst x)))) trace"
proof (induction es arbitrary: cur trace)
  case Nil
  then show ?case by simp
next
  case (Cons e es)
  from Cons.prems obtain nxt rest where
    st: "main_epoch 0 c len obs e cur = Returns nxt" and
    re: "run_epochs 0 c len obs es nxt = Returns rest" and tr: "trace = nxt # rest"
    unfolding run_epochs_Cons by blast
  show ?case using Cons.IH [OF re] main_epoch_step(3) [OF st] by (simp add: tr)
qed

lemma run_epochs_steps:
  "run_epochs rank c len obs es cur = Returns trace \<Longrightarrow> k < length trace \<Longrightarrow>
     \<exists>iou acc. evaluate (cfg_nclass c) (val_shards (obs (es ! k))) rank = Returns (iou, acc)
        \<and> 1 < length iou
        \<and> previous_best_iou (fst (trace ! k))
            = max (previous_best_iou (fst ((cur # trace) ! k))) (iou ! 1)"
proof (induction es arbitrary: cur trace k)
  case Nil
  then show ?case by simp
next
  case (Cons e es)
  from Cons.prems(1) obtain nxt rest where
    st: "main_epoch rank c len obs e cur = Returns nxt" and
    re: "run_epochs rank c len obs es nxt = Returns rest" and tr: "trace = nxt # rest"
    unfolding run_epochs_Cons by blast
  show ?case
  proof (cases k)
    case 0
    then show ?thesis using main_epoch_step(1) [OF st] tr by simp
  next
    case (Suc j)
    then have "j < length rest" using Cons.prems(2) tr by simp
    from Cons.IH [OF re this] show ?thesis using Suc tr by simp
  qed
qed

lemma run_epochs_sorted:
  "run_epochs rank c len obs es cur = Returns trace \<Longrightarrow>
     sorted (map (\<lambda>x. previous_best_iou (fst x)) (cur # trace))"
proof (induction es arbitrary: cur trace)
  case Nil
  then show ?case by simp
next
  case (Cons e es)
  from Cons.prems obtain nxt rest where
    st: "main_epoch rank c len obs e cur = Returns nxt" and
    re: "run_epochs rank c len obs es nxt = Returns rest" and tr: "trace = nxt # rest"
    unfolding run_epochs_Cons by blast
  have le: "previous_best_iou (fst cur) \<le> previous_best_iou (fst nxt)"
    using main_epoch_step(1) [OF st] by auto
  have "sorted (map (\<lambda>x. previous_best_iou (fst x)) (nxt # rest))" using Cons.IH [OF re] .
  with le show ?case by (simp add: tr sorted2 del: sorted_wrt.simps)
qed

lemma main_epoch_returns:
  assumes "len * cfg_epochs c \<noteq> 0"
    and "evaluate (cfg_nclass c) (val_shards (obs e)) rank = Returns (iou, acc)"
    and "1 < length iou"
  shows "\<exists>nxt. main_epoch rank c len obs e cur = Returns nxt"
  using assms(2,3) train_steps_returns [OF assms(1)]
  by (simp add: main_epoch_def main_epoch_end_def Let_def)

lemma run_epochs_returns:
  assumes "len * cfg_epochs c \<noteq> 0"
  shows "list_all (\<lambda>e. \<exists>iou acc. evaluate (cfg_nclass c) (val_shards (obs e)) rank = Returns (iou, acc)
            \<and> 1 < length iou) es \<Longrightarrow>
         \<exists>trace. run_epochs rank c len obs es cur = Returns trace"
proof (induction es arbitrary: cur)
  case Nil
  then show ?case by simp
next
  case (Cons e es)
  then obtain iou acc where
    "evaluate (cfg_nclass c) (val_shards (obs e)) rank = Returns (iou, acc)" "1 < length iou"
    by auto
  from main_epoch_returns [of len c obs e rank iou acc cur, OF assms this] obtain nxt where
    n: "main_epoch rank c len obs e cur = Returns nxt" by blast
  from Cons obtain rest where "run_epochs rank c len obs es nxt = Returns rest" by fastforce
  with n show ?case by simp
qed

lemma demo_evaluate:
  "evaluate 2 two_workers 0 = Returns ([300 / (6 + 1 / 10 ^ 10), 100 / (5 + 1 / 10 ^ 10)], 75)"
  "evaluate 2 two_workers_later 0 = Returns ([300 / (7 + 1 / 10 ^ 10), 0], 50)"
  by code_simp+

lemma demo_epochs: "epochs_to_run demo_cfg (initial_state w0 o0) = [0, 1]"
  by (simp add: epochs_to_run_def demo_cfg_def initial_state_def upto_rec1)

lemma demo_main_returns:
  "\<exists>trace. main 0 demo_cfg 2 0 0 demo_obs empty_storage = Returns trace"
proof -
  have r: "main_resume 0 0 (files empty_storage) = Returns (initial_state 0 0)"
    by (simp add: main_resume_def empty_storage_def)
  have t: "2 * cfg_epochs demo_cfg \<noteq> 0" by (simp add: demo_cfg_def)
  have "list_all (\<lambda>e. \<exists>iou acc. evaluate (cfg_nclass demo_cfg) (val_shards (demo_obs e)) 0
            = Returns (iou, acc) \<and> 1 < length iou) [0, 1]"
    by (simp add: demo_cfg_def demo_obs_def demo_evaluate)
  from run_epochs_returns [of 2 demo_cfg demo_obs 0 "[0, 1]" "(initial_state 0 0, empty_storage)", OF t this] show ?thesis
    by (simp add: main_def r demo_epochs)
qed


section \<open>The claims about checkpoints and epochs\<close>



lemma run_epochs_recorded:
  "run_epochs 0 c len obs es cur = Returns trace \<Longrightarrow>
     map (\<lambda>x. recorded (snd x) ''latest.pth'' ''previous_best_iou'') trace
       = map (\<lambda>x. Some (PyFloat (previous_best_iou (fst x)))) trace"
proof -
  assume "run_epochs 0 c len obs es cur = Returns trace"
  from run_epochs_latest [OF this] show ?thesis
    by (induction trace) (simp_all add: recorded_def checkpoint_of_def)
qed

text \<open>
  C4. A run that returns goes through every epoch of its range, one state per epoch. The
  best IoU never decreases from one epoch's state to the next, starting from the state the
  run began with; after each epoch it is the maximum of its value before and the
  change-class IoU that the epoch's evaluation returned; and on rank 0 the
  \<^verbatim>\<open>previous_best_iou\<close> entry of the record in \<^verbatim>\<open>latest.pth\<close> after each epoch is that
  value, so the values recorded in successive checkpoints never decrease.
\<close>

theorem best_iou_monotone:
  assumes "main rank c len w0 o0 obs fs = Returns trace"
  shows "\<exists>st0. main_resume w0 o0 (files fs) = Returns st0
     \<and> sorted (map previous_best_iou (st0 # map fst trace))
     \<and> (\<forall>k<length trace. \<exists>iou acc.
           evaluate (cfg_nclass c) (val_shards (obs (epochs_to_run c st0 ! k))) rank
             = Returns (iou, acc)
           \<and> previous_best_iou (fst (trace ! k))
               = max (previous_best_iou ((st0 # map fst trace) ! k)) (iou ! 1))
     \<and> (rank = 0 \<longrightarrow> list_all (\<lambda>x. files (snd x) ''latest.pth''
                                   = Some (Pickled (checkpoint_of (fst x)))) trace)
     \<and> length trace = length (epochs_to_run c st0)
     \<and> map (\<lambda>x. epoch (fst x)) trace = epochs_to_run c st0
     \<and> (rank = 0 \<longrightarrow>
           map (\<lambda>x. recorded (snd x) ''latest.pth'' ''previous_best_iou'') trace
             = map (\<lambda>x. Some (PyFloat (previous_best_iou (fst x)))) trace)"
proof -
  from assms obtain st0 where
    r: "main_resume w0 o0 (files fs) = Returns st0" and
    run: "run_epochs rank c len obs (epochs_to_run c st0) (st0, fs) = Returns trace"
    by (auto simp: main_def obind_eq_Returns)
  have "sorted (map previous_best_iou (st0 # map fst trace))"
    using run_epochs_sorted [OF run] by (simp add: comp_def)
  moreover have "\<forall>k<length trace. \<exists>iou acc.
           evaluate (cfg_nclass c) (val_shards (obs (epochs_to_run c st0 ! k))) rank
             = Returns (iou, acc)
           \<and> previous_best_iou (fst (trace ! k))
               = max (previous_best_iou ((st0 # map fst trace) ! k)) (iou ! 1)"
  proof (intro allI impI)
    fix k assume k: "k < length trace"
    have "fst (((st0, fs) # trace) ! k) = (st0 # map fst trace) ! k"
      using k by (cases k) simp_all
    with run_epochs_steps [OF run k] show "\<exists>iou acc.
           evaluate (cfg_nclass c) (val_shards (obs (epochs_to_run c st0 ! k))) rank
             = Returns (iou, acc)
           \<and> previous_best_iou (fst (trace ! k))
               = max (previous_best_iou ((st0 # map fst trace) ! k)) (iou ! 1)"
      by auto
  qed
  moreover have "rank = 0 \<longrightarrow> list_all (\<lambda>x. files (snd x) ''latest.pth''
                                   = Some (Pickled (checkpoint_of (fst x)))) trace"
    using run_epochs_latest run by blast
  moreover have "length trace = length (epochs_to_run c st0)"
    using run_epochs_length [OF run] .
  moreover have "map (\<lambda>x. epoch (fst x)) trace = epochs_to_run c st0"
    using run_epochs_epochs [OF run] .
  moreover have "rank = 0 \<longrightarrow>
           map (\<lambda>x. recorded (snd x) ''latest.pth'' ''previous_best_iou'') trace
             = map (\<lambda>x. Some (PyFloat (previous_best_iou (fst x)))) trace"
    using run_epochs_recorded run by blast
  ultimately show ?thesis using r by blast
qed

theorem best_iou_monotone_witness:
  "\<exists>trace. main 0 demo_cfg 2 0 0 demo_obs empty_storage = Returns trace
     \<and> length trace = 2
     \<and> map (\<lambda>x. epoch (fst x)) trace = [0, 1]
     \<and> map (\<lambda>x. previous_best_iou (fst x)) trace
         = [100 / (5 + 1 / 10 ^ 10), 100 / (5 + 1 / 10 ^ 10)]
     \<and> map (\<lambda>x. recorded (snd x) ''latest.pth'' ''previous_best_iou'') trace
         = [Some (PyFloat (100 / (5 + 1 / 10 ^ 10))), Some (PyFloat (100 / (5 + 1 / 10 ^ 10)))]
     \<and> sorted (0 # map (\<lambda>x. previous_best_iou (fst x)) trace)"
proof -
  let ?v = "100 / (5 + 1 / 10 ^ 10) :: real"
  from demo_main_returns obtain trace where
    m: "main 0 demo_cfg 2 0 0 demo_obs empty_storage = Returns trace" by blast
  have r: "main_resume 0 0 (files empty_storage) = Returns (initial_state (0::nat) (0::nat))"
    by (simp add: main_resume_def empty_storage_def)
  from best_iou_monotone [OF m] r have
    steps: "\<forall>k<length trace. \<exists>iou acc.
           evaluate (cfg_nclass demo_cfg)
             (val_shards (demo_obs (epochs_to_run demo_cfg (initial_state (0::nat) (0::nat)) ! k))) 0
             = Returns (iou, acc)
           \<and> previous_best_iou (fst (trace ! k))
               = max (previous_best_iou ((initial_state 0 0 # map fst trace) ! k)) (iou ! 1)" and
    len: "length trace = length (epochs_to_run demo_cfg (initial_state (0::nat) (0::nat)))" and
    eps: "map (\<lambda>x. epoch (fst x)) trace = epochs_to_run demo_cfg (initial_state (0::nat) (0::nat))" and
    rec: "map (\<lambda>x. recorded (snd x) ''latest.pth'' ''previous_best_iou'') trace
             = map (\<lambda>x. Some (PyFloat (previous_best_iou (fst x)))) trace"
    by auto
  have l2: "length trace = 2" using len by (simp add: demo_epochs)
  then obtain a b where tr: "trace = [a, b]"
    by (metis (no_types, opaque_lifting) One_nat_def Suc_1 length_0_conv length_Suc_conv)
  have e0: "evaluate (cfg_nclass demo_cfg) (val_shards (demo_obs 0)) 0
      = Returns ([300 / (6 + 1 / 10 ^ 10), ?v], 75)"
    and e1: "evaluate (cfg_nclass demo_cfg) (val_shards (demo_obs 1)) 0
      = Returns ([300 / (7 + 1 / 10 ^ 10), 0], 50)"
    by (simp_all add: demo_cfg_def demo_obs_def demo_evaluate)
  have v: "0 < ?v" by simp
  have a: "previous_best_iou (fst a) = ?v"
  proof -
    from steps [rule_format, of 0] l2 obtain iou acc where
      ev: "evaluate (cfg_nclass demo_cfg)
             (val_shards (demo_obs (epochs_to_run demo_cfg (initial_state (0::nat) (0::nat)) ! 0))) 0
             = Returns (iou, acc)" and
      eq: "previous_best_iou (fst (trace ! 0))
             = max (previous_best_iou ((initial_state 0 0 # map fst trace) ! 0)) (iou ! 1)"
      by auto
    have "epochs_to_run demo_cfg (initial_state (0::nat) (0::nat)) ! 0 = 0"
      by (simp only: demo_epochs nth_Cons_0)
    with ev e0 have "iou = [300 / (6 + 1 / 10 ^ 10), ?v]" by (simp only: outcome.inject prod.inject)
    then have "iou ! 1 = ?v" by (simp only: One_nat_def nth_Cons_Suc nth_Cons_0)
    moreover have "previous_best_iou ((initial_state (0::nat) (0::nat) # map fst trace) ! 0) = 0"
      by (simp add: initial_state_def)
    moreover have "trace ! 0 = a" by (simp add: tr)
    ultimately have "previous_best_iou (fst a) = max 0 ?v" using eq by (simp only:)
    with v show ?thesis by (simp only: max_def) simp
  qed
  have b: "previous_best_iou (fst b) = ?v"
  proof -
    from steps [rule_format, of 1] l2 obtain iou acc where
      ev: "evaluate (cfg_nclass demo_cfg)
             (val_shards (demo_obs (epochs_to_run demo_cfg (initial_state (0::nat) (0::nat)) ! 1))) 0
             = Returns (iou, acc)" and
      eq: "previous_best_iou (fst (trace ! 1))
             = max (previous_best_iou ((initial_state 0 0 # map fst trace) ! 1)) (iou ! 1)"
      by auto
    have "epochs_to_run demo_cfg (initial_state (0::nat) (0::nat)) ! 1 = 1"
      by (simp add: demo_epochs)
    with ev e1 have "iou = [300 / (7 + 1 / 10 ^ 10), 0]" by (simp only: outcome.inject prod.inject)
    then have "iou ! 1 = 0" by (simp only: One_nat_def nth_Cons_Suc nth_Cons_0)
    moreover have "previous_best_iou ((initial_state (0::nat) (0::nat) # map fst trace) ! 1) = ?v"
      using a by (simp add: tr)
    moreover have "trace ! 1 = b" by (simp add: tr)
    ultimately have "previous_best_iou (fst b) = max ?v 0" using eq by (simp only:)
    with v show ?thesis by (simp only: max_def) simp
  qed
  have pb: "map (\<lambda>x. previous_best_iou (fst x)) trace = [?v, ?v]"
    using a b by (simp only: tr list.map)
  have rc: "map (\<lambda>x. recorded (snd x) ''latest.pth'' ''previous_best_iou'') trace
         = [Some (PyFloat ?v), Some (PyFloat ?v)]"
    using rec a b by (simp only: tr list.map)
  have so: "sorted (0 # map (\<lambda>x. previous_best_iou (fst x)) trace)"
    using a b by (simp add: tr)
  have ep: "map (\<lambda>x. epoch (fst x)) trace = [0, 1]"
    using eps by (simp only: demo_epochs)
  show ?thesis
    by (rule exI [of _ trace]) (intro conjI m l2 ep pb rc so)
qed

text \<open>
  C6. Without \<^verbatim>\<open>latest.pth\<close> the run starts from the fresh state and its epochs are
  \<open>0, \<dots>, epochs - 1\<close>. With a checkpoint holding weights, optimizer state, epoch, best IoU
  and best accuracy, the five are restored as stored and the epochs are
  \<open>checkpoint.epoch + 1, \<dots>, epochs - 1\<close>. The epochs a returning run goes through are
  exactly these, in order.
\<close>

theorem main_resume_or_fresh:
  "(files fs ''latest.pth'' = None \<longrightarrow>
       main_resume w0 o0 (files fs) = Returns (initial_state w0 o0)
     \<and> epochs_to_run c (initial_state w0 o0) = [0 .. cfg_epochs c - 1])
   \<and> (files fs ''latest.pth'' = Some (Pickled d)
      \<and> d ''model'' = Some (StateDict w) \<and> d ''optimizer'' = Some (OptState s)
      \<and> d ''epoch'' = Some (PyInt e)
      \<and> d ''previous_best_iou'' = Some (PyFloat bi) \<and> d ''previous_best_acc'' = Some (PyFloat ba)
      \<longrightarrow> main_resume w0 o0 (files fs)
            = Returns \<lparr>model = w, optimizer = s, epoch = e,
                       previous_best_iou = bi, previous_best_acc = ba\<rparr>
        \<and> epochs_to_run c \<lparr>model = w, optimizer = s, epoch = e,
                            previous_best_iou = bi, previous_best_acc = ba\<rparr>
            = [e + 1 .. cfg_epochs c - 1])
   \<and> (main rank c len w0 o0 obs fs = Returns trace \<longrightarrow>
        (\<exists>st0. main_resume w0 o0 (files fs) = Returns st0
           \<and> map (\<lambda>x. epoch (fst x)) trace = [epoch st0 + 1 .. cfg_epochs c - 1]))"
proof -
  have "main_resume w0 o0 (files fs) = Returns (initial_state w0 o0)
     \<and> epochs_to_run c (initial_state w0 o0) = [0 .. cfg_epochs c - 1]"
    if "files fs ''latest.pth'' = None"
    using that by (simp add: main_resume_def epochs_to_run_def initial_state_def)
  moreover have "main_resume w0 o0 (files fs)
            = Returns \<lparr>model = w, optimizer = s, epoch = e,
                       previous_best_iou = bi, previous_best_acc = ba\<rparr>
        \<and> epochs_to_run c \<lparr>model = w, optimizer = s, epoch = e,
                            previous_best_iou = bi, previous_best_acc = ba\<rparr>
            = [e + 1 .. cfg_epochs c - 1]"
    if "files fs ''latest.pth'' = Some (Pickled d)
      \<and> d ''model'' = Some (StateDict w) \<and> d ''optimizer'' = Some (OptState s)
      \<and> d ''epoch'' = Some (PyInt e)
      \<and> d ''previous_best_iou'' = Some (PyFloat bi) \<and> d ''previous_best_acc'' = Some (PyFloat ba)"
    using that
    by (simp add: main_resume_def torch_load_def getitem_def model_load_state_dict_def
        optimizer_load_state_dict_def as_int_def as_float_def epochs_to_run_def)
  moreover have "\<exists>st0. main_resume w0 o0 (files fs) = Returns st0
           \<and> map (\<lambda>x. epoch (fst x)) trace = [epoch st0 + 1 .. cfg_epochs c - 1]"
    if "main rank c len w0 o0 obs fs = Returns trace"
  proof -
    from that obtain st0 where
      r: "main_resume w0 o0 (files fs) = Returns st0" and
      run: "run_epochs rank c len obs (epochs_to_run c st0) (st0, fs) = Returns trace"
      by (auto simp: main_def obind_eq_Returns)
    from run_epochs_epochs [OF run] r show ?thesis by (simp add: epochs_to_run_def)
  qed
  ultimately show ?thesis by blast
qed

theorem main_resume_or_fresh_witness:
  "main_resume (0::nat) (0::nat) (files empty_storage) = Returns (initial_state 0 0)
   \<and> epochs_to_run demo_cfg (initial_state (0::nat) (0::nat)) = [0, 1]
   \<and> main_resume (0::nat) (0::nat) (files resumed_storage) = Returns demo_state
   \<and> epochs_to_run (demo_cfg\<lparr>cfg_epochs := 6\<rparr>) demo_state = [4, 5]
   \<and> (\<exists>trace. main 0 demo_cfg 2 0 0 demo_obs empty_storage = Returns trace
         \<and> map (\<lambda>x. epoch (fst x)) trace = [0, 1])"
proof -
  have a: "files empty_storage ''latest.pth'' = None" by (simp add: empty_storage_def)
  have b: "files resumed_storage ''latest.pth'' = Some (Pickled (checkpoint_of demo_state))
      \<and> checkpoint_of demo_state ''model'' = Some (StateDict 7)
      \<and> checkpoint_of demo_state ''optimizer'' = Some (OptState 8)
      \<and> checkpoint_of demo_state ''epoch'' = Some (PyInt 3)
      \<and> checkpoint_of demo_state ''previous_best_iou'' = Some (PyFloat 40)
      \<and> checkpoint_of demo_state ''previous_best_acc'' = Some (PyFloat 90)"
    by (simp add: resumed_storage_def torch_save_def checkpoint_of_def demo_state_def)
  from demo_main_returns obtain trace where
    m: "main 0 demo_cfg 2 0 0 demo_obs empty_storage = Returns trace" by blast
  have u: "[0 .. cfg_epochs demo_cfg - 1] = [0, 1]" "[3 + 1 .. cfg_epochs (demo_cfg\<lparr>cfg_epochs := 6\<rparr>) - 1] = [4, 5]"
    by (simp_all add: demo_cfg_def upto_rec1)
  have i: "epoch (initial_state (0::nat) (0::nat)) = - 1" by (simp add: initial_state_def)
  show ?thesis
    using main_resume_or_fresh [of empty_storage 0 0 demo_cfg "checkpoint_of demo_state" 7 8 3 40 90
        0 2 demo_obs trace] a m
      main_resume_or_fresh [of resumed_storage 0 0 "demo_cfg\<lparr>cfg_epochs := 6\<rparr>"
        "checkpoint_of demo_state" 7 8 3 40 90 0 2 demo_obs trace] b
    by (auto simp: u i demo_state_def)
qed

text \<open>
  C7. Loading what was saved gives the state back, field for field: for any state, after
  its record is saved as \<^verbatim>\<open>latest.pth\<close>, and in particular after rank 0 finishes an epoch,
  the resume path returns that very state, whatever the fresh weights and optimizer state
  of the restarted process are.
\<close>

theorem checkpoint_round_trip:
  "main_resume w0 o0 (files (torch_save (checkpoint_of st) ''latest.pth'' fs)) = Returns st
   \<and> (main_epoch_end 0 e w s iou_class acc (st, fs) = Returns (st', fs')
        \<longrightarrow> main_resume w0 o0 (files fs') = Returns st')"
proof -
  have "main_resume w0 o0 (files (torch_save (checkpoint_of st) ''latest.pth'' fs)) = Returns st"
    by (rule main_resume_checkpoint) (simp add: torch_save_def)
  moreover have "main_resume w0 o0 (files fs') = Returns st'"
    if "main_epoch_end 0 e w s iou_class acc (st, fs) = Returns (st', fs')"
    using main_epoch_end_Returns(4) [OF that] by (simp add: main_resume_checkpoint)
  ultimately show ?thesis by blast
qed

theorem checkpoint_round_trip_witness:
  "main_resume (0::nat) (0::nat)
      (files (torch_save (checkpoint_of demo_state) ''latest.pth'' empty_storage))
     = Returns demo_state
   \<and> (\<exists>st' fs'. main_epoch_end 0 4 (1::nat) (2::nat) [90, 40] 80 (demo_state, empty_storage)
          = Returns (st', fs')
        \<and> main_resume 0 0 (files fs') = Returns st' \<and> epoch st' = 4)"
proof -
  obtain st' fs' where
    e: "main_epoch_end 0 4 (1::nat) (2::nat) [90, 40] 80 (demo_state, empty_storage)
          = Returns (st', fs')"
    by (simp add: main_epoch_end_def Let_def)
  from checkpoint_round_trip [of 0 0 demo_state empty_storage 4 1 2 "[90, 40]" 80 st' fs'] e
    main_epoch_end_Returns(3) [OF e]
  show ?thesis by auto
qed

text \<open>
  C9. The fresh start is taken when \<^verbatim>\<open>latest.pth\<close> does not exist. When it exists, the
  result never depends on the fresh weights and optimizer state; a file that does not
  unpickle, or a dictionary lacking one of the five keys, makes the run raise; and a
  resume that returns has read its state from the entries of the file.
\<close>

theorem main_resume_absent_or_fatal:
  "(dir ''latest.pth'' = None \<longrightarrow> main_resume w0 o0 dir = Returns (initial_state w0 o0))
   \<and> (dir ''latest.pth'' = Some f \<and> malformed f \<longrightarrow> (\<exists>err. main_resume w0 o0 dir = Raises err))
   \<and> (dir ''latest.pth'' = Some Unreadable \<longrightarrow> main_resume w0 o0 dir = Raises UnpicklingError)
   \<and> (dir ''latest.pth'' = Some f \<longrightarrow> main_resume w0 o0 dir = main_resume w1 o1 dir)
   \<and> (dir ''latest.pth'' = Some f \<and> main_resume w0 o0 dir = Returns st \<longrightarrow>
        (\<exists>d. f = Pickled d
           \<and> d ''model'' = Some (StateDict (model st))
           \<and> d ''optimizer'' = Some (OptState (optimizer st))
           \<and> d ''epoch'' = Some (PyInt (epoch st))
           \<and> (\<exists>v. d ''previous_best_iou'' = Some v \<and> as_float v = Returns (previous_best_iou st))
           \<and> (\<exists>v. d ''previous_best_acc'' = Some v \<and> as_float v = Returns (previous_best_acc st))))"
proof -
  have "main_resume w0 o0 dir = Returns (initial_state w0 o0)" if "dir ''latest.pth'' = None"
    using that by (simp add: main_resume_def)
  moreover have "main_resume w0 o0 dir = Raises UnpicklingError"
    if "dir ''latest.pth'' = Some Unreadable"
    using that by (simp add: main_resume_def torch_load_def)
  ultimately show ?thesis
    using main_resume_malformed [of dir f w0 o0] main_resume_independent [of dir f w0 o0 w1 o1]
      main_resume_Returns [of dir f w0 o0 st]
    by blast
qed

theorem main_resume_absent_or_fatal_witness:
  "main_resume (0::nat) (0::nat) (files empty_storage) = Returns (initial_state 0 0)
   \<and> (\<exists>err. main_resume (0::nat) (0::nat) [''latest.pth'' \<mapsto> truncated_checkpoint] = Raises err)
   \<and> main_resume (0::nat) (0::nat) [''latest.pth'' \<mapsto> Unreadable] = Raises UnpicklingError
   \<and> main_resume (0::nat) (0::nat) [''latest.pth'' \<mapsto> Pickled (checkpoint_of demo_state)]
       = main_resume 5 6 [''latest.pth'' \<mapsto> Pickled (checkpoint_of demo_state)]
   \<and> (\<exists>d. Pickled (checkpoint_of demo_state) = Pickled d
         \<and> d ''epoch'' = Some (PyInt (epoch demo_state)))"
proof -
  have a: "files empty_storage ''latest.pth'' = None" by (simp add: empty_storage_def)
  have b: "[''latest.pth'' \<mapsto> truncated_checkpoint] ''latest.pth'' = Some truncated_checkpoint"
    "malformed truncated_checkpoint"
    by (simp_all add: malformed_def truncated_checkpoint_def checkpoint_keys_def)
  have c: "[''latest.pth'' \<mapsto> Unreadable :: (nat, nat) saved_file] ''latest.pth'' = Some Unreadable"
    by simp
  have d: "[''latest.pth'' \<mapsto> Pickled (checkpoint_of demo_state)] ''latest.pth''
       = Some (Pickled (checkpoint_of demo_state))" by simp
  have e: "main_resume (0::nat) (0::nat) [''latest.pth'' \<mapsto> Pickled (checkpoint_of demo_state)]
       = Returns demo_state"
    using d by (rule main_resume_checkpoint)
  show ?thesis
    using main_resume_absent_or_fatal [of "files empty_storage" 0 0 Unreadable 0 0 demo_state] a
      main_resume_absent_or_fatal [of "[''latest.pth'' \<mapsto> truncated_checkpoint]" 0 0
        truncated_checkpoint 0 0 demo_state] b
      main_resume_absent_or_fatal [of "[''latest.pth'' \<mapsto> Unreadable]" 0 0 Unreadable 0 0 demo_state] c
      main_resume_absent_or_fatal [of "[''latest.pth'' \<mapsto> Pickled (checkpoint_of demo_state)]" 0 0
        "Pickled (checkpoint_of demo_state)" 5 6 demo_state] d e
    by (simp add: checkpoint_of_def)
qed

end
